theory Spec2Isabelle
  imports Main "HOL-Library.Word"
begin

section \<open>source.go: errors, sources and the conditional downloader\<close>

subsection \<open>Error values\<close>

text \<open>
  The package-level error variables of source.go, the errors built with
  \<^verbatim>\<open>fmt.Errorf\<close> (the constructor carries the formatted message), the one error
  \<^verbatim>\<open>io.Copy\<close> makes itself, and the errors handed up by the libraries and the operating
  system (url, net/http, os, go-github), which carry their message.
\<close>

datatype error =
    errUnknownSource
  | errSourceNotFound
  | errSourceNotModified
  | errGithubNoRelease
  | errGithubNoAssets
  | errGithubIncompleteAsset
  | Errorf string
  | ErrShortWrite
  | External string

text \<open>The \<^verbatim>\<open>Error()\<close> method: the message of an error value.\<close>

fun Error :: "error \<Rightarrow> string" where
  "Error errUnknownSource = ''unknown source''"
| "Error errSourceNotFound = ''source not found''"
| "Error errSourceNotModified = ''source not modified''"
| "Error errGithubNoRelease = ''absence of github release''"
| "Error errGithubNoAssets = ''no matched assets in github release''"
| "Error errGithubIncompleteAsset = ''incomplete github asset''"
| "Error (Errorf msg) = msg"
| "Error ErrShortWrite = ''short write''"
| "Error (External msg) = msg"

subsection \<open>Source types\<close>

text \<open>\<^verbatim>\<open>type sourceType int\<close> with its three constants numbered by \<^verbatim>\<open>iota\<close>.\<close>

type_synonym sourceType = int

definition releaseSource :: sourceType where "releaseSource = 0"
definition developSource :: sourceType where "developSource = 1"
definition canarySource :: sourceType where "canarySource = 2"

text \<open>A Go function returning \<^verbatim>\<open>(value, error)\<close> is a pair; \<open>None\<close> is the nil error.\<close>

definition toSourceType :: "string \<Rightarrow> sourceType \<times> error option" where
  "toSourceType s =
     (if s = ''release'' then (releaseSource, None)
      else if s = ''develop'' then (developSource, None)
      else if s = ''canary'' then (canarySource, None)
      else (0, Some errUnknownSource))"

text \<open>
  \<^verbatim>\<open>arch.CPU\<close> is an integer type of the package go-arch. The table names two of its
  constants; any other value of the type is \<open>OtherCPU\<close>.
\<close>

datatype CPU = X86 | AMD64 | OtherCPU int

subsection \<open>Times, releases, requests and responses\<close>

text \<open>
  A \<^verbatim>\<open>time.Time\<close> is an instant, counted in nanoseconds from the zero time
  (January 1 of year 1, UTC), which is the instant \<open>0\<close>.
\<close>

type_synonym time = int

definition IsZero :: "time \<Rightarrow> bool" where
  "IsZero t = (t = 0)"

definition After :: "time \<Rightarrow> time \<Rightarrow> bool" where
  "After t u = (u < t)"

type_synonym byte = "8 word"

text \<open>\<^verbatim>\<open>github.Asset\<close> and \<^verbatim>\<open>github.Release\<close>: the fields source.go reads.\<close>

record Asset =
  Name :: string
  State :: string
  DownloadURL :: string
  UpdatedAt :: time

record Release =
  Draft :: bool
  PreRelease :: bool
  Assets :: "Asset list"

text \<open>
  A GET request: its URL and the If-Modified-Since header when it is set. The header
  holds the pivot instant (the code formats it in UTC with \<^verbatim>\<open>http.TimeFormat\<close>).
\<close>

record request =
  req_URL :: string
  If_Modified_Since :: "time option"

text \<open>
  A response: status, content length (an \<^verbatim>\<open>int64\<close>, -1 when the server gives none), and
  the body as the chunks successive \<^verbatim>\<open>Read\<close> calls deliver, ended by \<^verbatim>\<open>io.EOF\<close>
  (\<open>BodyErr = None\<close>) or by a read error.
\<close>

record response =
  StatusCode :: int
  Status :: string
  ContentLength :: "64 word"
  Body :: "byte list list"
  BodyErr :: "error option"

definition StatusOK :: int where "StatusOK = 200"
definition StatusNotModified :: int where "StatusNotModified = 304"

subsection \<open>The environment and the observable state\<close>

text \<open>
  What the libraries and the operating system answer. \<open>os_Write_fault path cur p\<close> is
  \<open>None\<close> when the file \<open>path\<close>, holding \<open>cur\<close>, accepts all of \<open>p\<close>; \<open>Some (k, e)\<close> when the
  write stops after at most \<open>k\<close> bytes with the error \<open>e\<close> (\<^verbatim>\<open>os.File.Write\<close> returns an
  error whenever it writes less than it was given).
\<close>

record env =
  github_Latest :: "string \<Rightarrow> string \<Rightarrow> error + Release"
  regexp_MatchString :: "string \<Rightarrow> string \<Rightarrow> bool"
  url_Parse_Path :: "string \<Rightarrow> error + string"
  filepath_Base :: "string \<Rightarrow> string"
  filepath_Join :: "string \<Rightarrow> string \<Rightarrow> string"
  http_NewRequest :: "string \<Rightarrow> error option"
  http_Do :: "request \<Rightarrow> error + response"
  os_Create :: "string \<Rightarrow> error option"
  os_Write_fault :: "string \<Rightarrow> byte list \<Rightarrow> byte list \<Rightarrow> (nat \<times> error) option"

text \<open>
  What a download leaves behind: the files, the requests sent with
  \<^verbatim>\<open>http.DefaultClient.Do\<close>, the queries of the releases API (\<^verbatim>\<open>github.Latest\<close>, as
  owner and project), and the calls of the progress function with their two arguments.
\<close>

record sys =
  files :: "string \<rightharpoonup> byte list"
  requests :: "request list"
  api_calls :: "(string \<times> string) list"
  progress :: "(int \<times> int) list"

subsection \<open>The two kinds of source\<close>

record directSource =
  url :: string

text \<open>
  \<open>namePat\<close> is the text of the regular expression (in the table the backslash is the
  character \<open>0x5C\<close>); matching is \<open>regexp_MatchString\<close>.
\<close>

record githubSource =
  user :: string
  project :: string
  namePat :: string

datatype source = DirectSource directSource | GithubSource githubSource

subsection \<open>progressWriter and the copy loop\<close>

text \<open>
  \<open>pw_w\<close> is the path of the file written to, \<open>pw_f\<close> says whether the progress function
  is non-nil, \<open>pw_n\<close> and \<open>pw_m\<close> are the two \<^verbatim>\<open>int64\<close> counters.
\<close>

record progressWriter =
  pw_w :: string
  pw_f :: bool
  pw_n :: "64 word"
  pw_m :: "64 word"

text \<open>\<^verbatim>\<open>os.File.Write\<close>: appends what the file accepts, returns the count and the error.\<close>

definition file_Write :: "env \<Rightarrow> string \<Rightarrow> byte list \<Rightarrow> sys \<Rightarrow> (nat \<times> error option) \<times> sys" where
  "file_Write e path p s =
     (let cur = (case files s path of None \<Rightarrow> [] | Some c \<Rightarrow> c) in
      case os_Write_fault e path cur p of
        None \<Rightarrow> ((length p, None), s\<lparr>files := (files s)(path \<mapsto> cur @ p)\<rparr>)
      | Some (k, err) \<Rightarrow>
          ((min k (length p), Some err), s\<lparr>files := (files s)(path \<mapsto> cur @ take k p)\<rparr>))"

definition progressWriter_Write ::
  "env \<Rightarrow> progressWriter \<Rightarrow> byte list \<Rightarrow> sys \<Rightarrow> (nat \<times> error option) \<times> progressWriter \<times> sys" where
  "progressWriter_Write e pw p s =
     (case file_Write e (pw_w pw) p s of
        ((k, err), s1) \<Rightarrow>
          (let pw1 = pw\<lparr>pw_n := pw_n pw + of_nat k\<rparr>;
               s2 = (if pw_f pw1
                     then s1\<lparr>progress := progress s1 @ [(sint (pw_n pw1), sint (pw_m pw1))]\<rparr>
                     else s1)
           in ((k, err), pw1, s2)))"

text \<open>
  \<^verbatim>\<open>io.Copy\<close> from the response body: every non-empty chunk read is handed to \<^verbatim>\<open>Write\<close>;
  a write error or a short write stops the loop, the end of the body returns the read
  error (nil at \<^verbatim>\<open>io.EOF\<close>).
\<close>

fun io_Copy ::
  "env \<Rightarrow> progressWriter \<Rightarrow> byte list list \<Rightarrow> error option \<Rightarrow> sys \<Rightarrow> error option \<times> progressWriter \<times> sys" where
  "io_Copy e pw [] rerr s = (rerr, pw, s)"
| "io_Copy e pw (c # cs) rerr s =
     (if c = [] then io_Copy e pw cs rerr s
      else (case progressWriter_Write e pw c s of
              ((nw, ew), pw1, s1) \<Rightarrow>
                (case ew of
                   Some err \<Rightarrow> (Some err, pw1, s1)
                 | None \<Rightarrow>
                     if length c \<noteq> nw then (Some ErrShortWrite, pw1, s1)
                     else io_Copy e pw1 cs rerr s1)))"

text \<open>\<^verbatim>\<open>os.Create\<close> makes the file or truncates it.\<close>

definition saveBody :: "env \<Rightarrow> string \<Rightarrow> response \<Rightarrow> bool \<Rightarrow> sys \<Rightarrow> error option \<times> sys" where
  "saveBody e outPath resp pf s =
     (case os_Create e outPath of
        Some err \<Rightarrow> (Some err, s)
      | None \<Rightarrow>
          (let s1 = s\<lparr>files := (files s)(outPath \<mapsto> [])\<rparr>;
               wr = \<lparr>pw_w = outPath, pw_f = pf, pw_n = 0, pw_m = ContentLength resp\<rparr>
           in case io_Copy e wr (Body resp) (BodyErr resp) s1 of
                (Some err, _, s2) \<Rightarrow> (Some err, s2)
              | (None, _, s2) \<Rightarrow> (None, s2)))"

subsection \<open>download\<close>

definition downloadFilepath :: "env \<Rightarrow> string \<Rightarrow> string \<Rightarrow> string \<times> error option" where
  "downloadFilepath e inURL outdir =
     (case url_Parse_Path e inURL of
        Inl err \<Rightarrow> ('''', Some err)
      | Inr p \<Rightarrow> (filepath_Join e outdir (filepath_Base e p), None))"

definition downloadAsFile ::
  "env \<Rightarrow> string \<Rightarrow> string \<Rightarrow> time \<Rightarrow> bool \<Rightarrow> sys \<Rightarrow> error option \<times> sys" where
  "downloadAsFile e inURL outPath pivot pf s =
     (case http_NewRequest e inURL of
        Some err \<Rightarrow> (Some err, s)
      | None \<Rightarrow>
          (let req = \<lparr>req_URL = inURL,
                      If_Modified_Since = (if \<not> IsZero pivot then Some pivot else None)\<rparr>;
               s1 = s\<lparr>requests := requests s @ [req]\<rparr>
           in case http_Do e req of
                Inl err \<Rightarrow> (Some err, s1)
              | Inr resp \<Rightarrow>
                  if StatusCode resp = StatusOK then saveBody e outPath resp pf s1
                  else if StatusCode resp = StatusNotModified then (Some errSourceNotModified, s1)
                  else (Some (Errorf (''unexpected response: '' @ Status resp)), s1)))"

definition download ::
  "env \<Rightarrow> string \<Rightarrow> string \<Rightarrow> time \<Rightarrow> bool \<Rightarrow> sys \<Rightarrow> (string \<times> error option) \<times> sys" where
  "download e inURL outdir pivot pf s =
     (case downloadFilepath e inURL outdir of
        (_, Some err) \<Rightarrow> (('''', Some err), s)
      | (path, None) \<Rightarrow>
          (case downloadAsFile e inURL path pivot pf s of
             (Some err, s1) \<Rightarrow> (('''', Some err), s1)
           | (None, s1) \<Rightarrow> ((path, None), s1)))"

subsection \<open>The methods of the two sources\<close>

definition directSource_download ::
  "env \<Rightarrow> directSource \<Rightarrow> string \<Rightarrow> time \<Rightarrow> bool \<Rightarrow> sys \<Rightarrow> (string \<times> error option) \<times> sys" where
  "directSource_download e ds d p pf s = download e (url ds) d p pf s"

text \<open>
  The loop over the assets: \<open>t\<close> stays nil until the first name that matches. The result
  of \<open>fetchAsset\<close> is the asset or the error, never both and never neither.
\<close>

fun scanAssets :: "(string \<Rightarrow> bool) \<Rightarrow> Asset list \<Rightarrow> Asset option" where
  "scanAssets mt [] = None"
| "scanAssets mt (a # as) = (if mt (Name a) then Some a else scanAssets mt as)"

definition fetchAsset :: "env \<Rightarrow> githubSource \<Rightarrow> sys \<Rightarrow> (error + Asset) \<times> sys" where
  "fetchAsset e gs s =
     (let s1 = s\<lparr>api_calls := api_calls s @ [(user gs, project gs)]\<rparr> in
      case github_Latest e (user gs) (project gs) of
        Inl err \<Rightarrow> (Inl err, s1)
      | Inr r \<Rightarrow>
          if Draft r \<or> PreRelease r then (Inl errGithubNoRelease, s1)
          else (case scanAssets (regexp_MatchString e (namePat gs)) (Assets r) of
                  None \<Rightarrow> (Inl errGithubNoAssets, s1)
                | Some t \<Rightarrow>
                    if State t \<noteq> ''uploaded'' then (Inl errGithubIncompleteAsset, s1)
                    else (Inr t, s1)))"

definition githubSource_download ::
  "env \<Rightarrow> githubSource \<Rightarrow> string \<Rightarrow> time \<Rightarrow> bool \<Rightarrow> sys \<Rightarrow> (string \<times> error option) \<times> sys" where
  "githubSource_download e gs d p pf s =
     (case fetchAsset e gs s of
        (Inl err, s1) \<Rightarrow> (('''', Some err), s1)
      | (Inr a, s1) \<Rightarrow>
          if \<not> IsZero p \<and> After p (UpdatedAt a) then (('''', Some errSourceNotModified), s1)
          else download e (DownloadURL a) d p pf s1)"

text \<open>The method of the interface \<^verbatim>\<open>source\<close>.\<close>

fun source_download ::
  "env \<Rightarrow> source \<Rightarrow> string \<Rightarrow> time \<Rightarrow> bool \<Rightarrow> sys \<Rightarrow> (string \<times> error option) \<times> sys" where
  "source_download e (DirectSource ds) d p pf s = directSource_download e ds d p pf s"
| "source_download e (GithubSource gs) d p pf s = githubSource_download e gs d p pf s"

subsection \<open>The table of sources\<close>

definition sources :: "sourceType \<Rightarrow> (CPU \<rightharpoonup> source) option" where
  "sources st =
     (if st = releaseSource then
        Some (\<lambda>c. case c of
                X86 \<Rightarrow> Some (GithubSource \<lparr>user = ''koron'', project = ''vim-kaoriya'',
                                           namePat = ''-win32-.*'' @ [CHR 0x5C] @ ''.zip$''\<rparr>)
              | AMD64 \<Rightarrow> Some (GithubSource \<lparr>user = ''koron'', project = ''vim-kaoriya'',
                                             namePat = ''-win64-.*'' @ [CHR 0x5C] @ ''.zip$''\<rparr>)
              | OtherCPU _ \<Rightarrow> None)
      else if st = developSource then
        Some (\<lambda>c. case c of
                X86 \<Rightarrow> Some (DirectSource \<lparr>url = ''http://files.kaoriya.net/vim/vim74-kaoriya-win32.zip''\<rparr>)
              | AMD64 \<Rightarrow> Some (DirectSource \<lparr>url = ''http://files.kaoriya.net/vim/vim74-kaoriya-win64.zip''\<rparr>)
              | OtherCPU _ \<Rightarrow> None)
      else if st = canarySource then
        Some (\<lambda>c. case c of
                X86 \<Rightarrow> Some (DirectSource \<lparr>url = ''http://files.kaoriya.net/vim/vim74-kaoriya-win32-test.zip''\<rparr>)
              | AMD64 \<Rightarrow> Some (DirectSource \<lparr>url = ''http://files.kaoriya.net/vim/vim74-kaoriya-win64-test.zip''\<rparr>)
              | OtherCPU _ \<Rightarrow> None)
      else None)"

text \<open>The result is the interface value (\<open>None\<close> is nil) and the error.\<close>

definition determineSource :: "sourceType \<Rightarrow> CPU \<Rightarrow> source option \<times> error option" where
  "determineSource st c =
     (case sources st of
        None \<Rightarrow> (None, Some errSourceNotFound)
      | Some m \<Rightarrow>
          (case m c of
             None \<Rightarrow> (None, Some errSourceNotFound)
           | Some s \<Rightarrow> (Some s, None)))"

section \<open>main.go: the run and the self-update decision\<close>

subsection \<open>Configuration, command line and globals\<close>

text \<open>
  What \<open>setup_main\<close> (the function \<^verbatim>\<open>setup\<close> of main.go) reads from the loaded configuration: the results of its methods
  \<^verbatim>\<open>getTargetDir\<close> and \<^verbatim>\<open>getSource\<close>, and its fields \<^verbatim>\<open>CPU\<close> and
  \<^verbatim>\<open>DisableSelfUpdate\<close>.
\<close>

record config =
  conf_getTargetDir :: string
  conf_getSource :: string
  conf_CPU :: string
  DisableSelfUpdate :: bool

text \<open>
  The command line as \<^verbatim>\<open>flag.Parse\<close> leaves it; for \<^verbatim>\<open>-t\<close> and \<^verbatim>\<open>-s\<close>, \<open>None\<close>
  says that the flag is absent and its default applies.
\<close>

record cmdline =
  helpOpt :: bool
  targetOpt :: "string option"
  sourceOpt :: "string option"
  restoreOpt :: bool
  versionOpt :: bool

record globals =
  targetDir :: string
  sourceName :: string
  cpu :: string
  restore :: bool
  selfUpdate :: bool

definition initial_globals :: globals where
  "initial_globals =
     \<lparr>targetDir = ''.'', sourceName = ''release'', cpu = [], restore = False,
      selfUpdate = True\<rparr>"

text \<open>\<^verbatim>\<open>netup.Arch\<close>; a field left out of the literal is the empty string.\<close>

record Arch =
  Arch_Name :: string
  Arch_Hint :: string

text \<open>A function either ends the process with a status (\<^verbatim>\<open>os.Exit\<close>) or returns.\<close>

datatype 'a outcome = Exit int | Return 'a

text \<open>
  What a run does that can be seen from outside: its calls of \<^verbatim>\<open>netup.Update\<close> and the
  lines it logs with \<^verbatim>\<open>netup.LogInfo\<close>.
\<close>

datatype 'p event =
    is_UpdateCall: UpdateCall string string 'p Arch bool
  | LogInfo string

text \<open>
  The surroundings of \<open>run\<close>, over a state \<open>'w\<close> of the machine and a type \<open>'p\<close> of
  package descriptors: the configuration file as \<^verbatim>\<open>loadConfig\<close> reads it, the parsed
  command line, or the status with which the flag package ends the process when it
  does not accept the command line (2 for a malformed one; for the undefined flag
  \<^verbatim>\<open>-help\<close> 0 from Go 1.15 on and 2 before), the
  table \<^verbatim>\<open>vimSet\<close> and the descriptor \<^verbatim>\<open>netupPack\<close>, \<^verbatim>\<open>netup.Update\<close> with
  the state it leaves, \<^verbatim>\<open>os.Stat\<close> (only its error) and \<^verbatim>\<open>filepath.Join\<close>.
\<close>

record ('w, 'p) menv =
  loadConfig :: "error + config"
  flag_Parse :: "int + cmdline"
  vimSet :: "string \<rightharpoonup> 'p"
  netupPack :: 'p
  netup_Update :: "'w \<Rightarrow> string \<Rightarrow> string \<Rightarrow> 'p \<Rightarrow> Arch \<Rightarrow> bool \<Rightarrow> error option \<times> 'w"
  os_Stat :: "'w \<Rightarrow> string \<Rightarrow> error option"
  Join :: "string \<Rightarrow> string \<Rightarrow> string"

subsection \<open>The functions of main.go\<close>

text \<open>The assignments to the variables of the package netup are left out.\<close>

definition setup_main :: "('w, 'p) menv \<Rightarrow> globals \<Rightarrow> (error option \<times> globals) outcome" where
  "setup_main e g =
     (case loadConfig e of
        Inl err \<Rightarrow> Return (Some err, g)
      | Inr conf \<Rightarrow>
          (case flag_Parse e of
             Inl status \<Rightarrow> Exit status
           | Inr cl \<Rightarrow>
               if helpOpt cl then Exit 1
               else if versionOpt cl then Exit 1
               else Return (None,
                 g\<lparr>targetDir := (case targetOpt cl of None \<Rightarrow> conf_getTargetDir conf | Some t \<Rightarrow> t),
                   sourceName := (case sourceOpt cl of None \<Rightarrow> conf_getSource conf | Some t \<Rightarrow> t),
                   restore := restoreOpt cl,
                   cpu := conf_CPU conf,
                   selfUpdate := \<not> DisableSelfUpdate conf\<rparr>)))"

definition shouldSelfUpdate :: "('w, 'p) menv \<Rightarrow> globals \<Rightarrow> 'w \<Rightarrow> bool" where
  "shouldSelfUpdate e g w =
     (if \<not> selfUpdate g then False
      else os_Stat e w (Join e (targetDir g) ''netupvim.exe'') = None)"

definition run :: "('w, 'p) menv \<Rightarrow> 'w \<Rightarrow> error option outcome \<times> 'w \<times> 'p event list" where
  "run e w =
     (case setup_main e initial_globals of
        Exit c \<Rightarrow> (Exit c, w, [])
      | Return (Some err, g) \<Rightarrow> (Return (Some err), w, [])
      | Return (None, g) \<Rightarrow>
          (let workDir = Join e (targetDir g) ''netupvim'' in
           case vimSet e (sourceName g) of
             None \<Rightarrow> (Return (Some (Errorf (''invalid source: '' @ sourceName g))), w, [])
           | Some vimPack \<Rightarrow>
               (let a1 = \<lparr>Arch_Name = cpu g, Arch_Hint = ''vim.exe''\<rparr>;
                    t1 = [UpdateCall (targetDir g) workDir vimPack a1 (restore g)]
                in case netup_Update e w (targetDir g) workDir vimPack a1 (restore g) of
                     (Some err, w1) \<Rightarrow> (Return (Some err), w1, t1)
                   | (None, w1) \<Rightarrow>
                       if shouldSelfUpdate e g w1 then
                         (let a2 = \<lparr>Arch_Name = ''X86'', Arch_Hint = []\<rparr>;
                              t2 = t1 @ [LogInfo ''trying to update netupvim'',
                                         UpdateCall (targetDir g) workDir (netupPack e) a2 (restore g)]
                          in case netup_Update e w1 (targetDir g) workDir (netupPack e) a2 (restore g) of
                               (Some err, w2) \<Rightarrow>
                                 (Return None, w2,
                                  t2 @ [LogInfo (''failed to udate netupvim: '' @ Error err)])
                             | (None, w2) \<Rightarrow> (Return None, w2, t2))
                       else (Return None, w1, t1))))"

section \<open>A small environment to run the model in\<close>

text \<open>
  A regular expression without metacharacters matches the names that contain it;
  \<open>contains\<close> is that test.
\<close>

fun starts_with :: "string \<Rightarrow> string \<Rightarrow> bool" where
  "starts_with [] s = True"
| "starts_with (p # ps) [] = False"
| "starts_with (p # ps) (c # cs) = (p = c \<and> starts_with ps cs)"

fun contains :: "string \<Rightarrow> string \<Rightarrow> bool" where
  "contains pat [] = starts_with pat []"
| "contains pat (c # cs) = (starts_with pat (c # cs) \<or> contains pat cs)"

text \<open>The path of a URL that starts with \<^verbatim>\<open>http://\<close>, and the last element of a path.\<close>

definition url_path :: "string \<Rightarrow> string" where
  "url_path u = dropWhile (\<lambda>c. c \<noteq> CHR ''/'') (drop 7 u)"

definition base_name :: "string \<Rightarrow> string" where
  "base_name p = rev (takeWhile (\<lambda>c. c \<noteq> CHR ''/'') (rev p))"

definition join_path :: "string \<Rightarrow> string \<Rightarrow> string" where
  "join_path d b = (if d = ''.'' then b else d @ ''/'' @ b)"

definition ex_asset32 :: Asset where
  "ex_asset32 = \<lparr>Name = ''x-win32-a.zip'', State = ''uploaded'',
                  DownloadURL = ''http://h/x-win32-a.zip'', UpdatedAt = 100\<rparr>"

definition ex_asset64 :: Asset where
  "ex_asset64 = \<lparr>Name = ''x-win64-b.zip'', State = ''uploaded'',
                  DownloadURL = ''http://h/x-win64-b.zip'', UpdatedAt = 200\<rparr>"

definition ex_asset_new :: Asset where
  "ex_asset_new = \<lparr>Name = ''y-win64-c.zip'', State = ''new'',
                    DownloadURL = ''http://h/y-win64-c.zip'', UpdatedAt = 250\<rparr>"

definition ex_release :: Release where
  "ex_release = \<lparr>Draft = False, PreRelease = False, Assets = [ex_asset32, ex_asset64]\<rparr>"

definition ex_pending :: Release where
  "ex_pending = \<lparr>Draft = False, PreRelease = False,
                  Assets = [ex_asset32, ex_asset_new, ex_asset64]\<rparr>"

definition ex_draft :: Release where
  "ex_draft = \<lparr>Draft = True, PreRelease = False, Assets = [ex_asset32, ex_asset64]\<rparr>"

definition ex_resp_ok :: response where
  "ex_resp_ok = \<lparr>StatusCode = 200, Status = ''200 OK'', ContentLength = 5,
                  Body = [[1, 2, 3], [4, 5]], BodyErr = None\<rparr>"

definition ex_resp_not_modified :: response where
  "ex_resp_not_modified = \<lparr>StatusCode = 304, Status = ''304 Not Modified'', ContentLength = 0,
                            Body = [], BodyErr = None\<rparr>"

definition ex_resp_gone :: response where
  "ex_resp_gone = \<lparr>StatusCode = 404, Status = ''404 Not Found'', ContentLength = 0,
                    Body = [], BodyErr = None\<rparr>"

text \<open>
  The project \<^verbatim>\<open>koron/vim-kaoriya\<close> has the release \<open>ex_release\<close>, the project
  \<^verbatim>\<open>koron/draft\<close> a draft, the project \<^verbatim>\<open>koron/pending\<close> the release
  \<open>ex_pending\<close>; the server has every file but \<^verbatim>\<open>gone.zip\<close> and answers a
  conditional request with 304; the disk never fails.
\<close>

definition ex_env :: env where
  "ex_env =
     \<lparr>github_Latest = (\<lambda>u p. if u = ''koron'' \<and> p = ''vim-kaoriya'' then Inr ex_release
                              else if u = ''koron'' \<and> p = ''draft'' then Inr ex_draft
                              else if u = ''koron'' \<and> p = ''pending'' then Inr ex_pending
                              else Inl (External ''404 Not Found'')),
      regexp_MatchString = contains,
      url_Parse_Path = (\<lambda>u. Inr (url_path u)),
      filepath_Base = base_name,
      filepath_Join = join_path,
      http_NewRequest = (\<lambda>u. None),
      http_Do = (\<lambda>rq. if req_URL rq = ''http://h/gone.zip'' then Inr ex_resp_gone
                        else if If_Modified_Since rq = None then Inr ex_resp_ok
                        else Inr ex_resp_not_modified),
      os_Create = (\<lambda>p. None),
      os_Write_fault = (\<lambda>p cur c. None)\<rparr>"

definition ex_sys :: sys where
  "ex_sys = \<lparr>files = Map.empty, requests = [], api_calls = [], progress = []\<rparr>"

definition ex_gs :: githubSource where
  "ex_gs = \<lparr>user = ''koron'', project = ''vim-kaoriya'', namePat = ''win64''\<rparr>"

text \<open>
  For \<open>run\<close>: the state of the machine is the list of the paths \<^verbatim>\<open>os.Stat\<close> knows, each
  with the error it answers; any other path does not exist. Updating the editor
  succeeds, updating the updater fails.
\<close>

definition ex_menv :: "((string \<times> error option) list, string) menv" where
  "ex_menv =
     \<lparr>loadConfig = Inr \<lparr>conf_getTargetDir = ''.'', conf_getSource = ''release'',
                         conf_CPU = [], DisableSelfUpdate = False\<rparr>,
      flag_Parse = Inr \<lparr>helpOpt = False, targetOpt = None, sourceOpt = None,
                          restoreOpt = False, versionOpt = False\<rparr>,
      vimSet = (\<lambda>n. if n = ''release'' then Some ''vim-release''
                      else if n = ''develop'' then Some ''vim-develop''
                      else if n = ''canary'' then Some ''vim-canary'' else None),
      netupPack = ''netupvim-release'',
      netup_Update = (\<lambda>w t d p a r. if p = ''netupvim-release''
                                      then (Some (External ''download timeout''), w)
                                      else (None, w)),
      os_Stat = (\<lambda>w p. case map_of w p of
                          None \<Rightarrow> Some (External ''file does not exist'')
                        | Some r \<Rightarrow> r),
      Join = join_path\<rparr>"

section \<open>Properties\<close>

subsection \<open>The scan of the assets\<close>

lemma scanAssets_None:
  "(scanAssets mt xs = None) = (\<forall>a \<in> set xs. \<not> mt (Name a))"
  by (induction xs) auto

lemma scanAssets_first:
  "i < length xs \<Longrightarrow> mt (Name (xs ! i)) \<Longrightarrow> (\<And>j. j < i \<Longrightarrow> \<not> mt (Name (xs ! j)))
     \<Longrightarrow> scanAssets mt xs = Some (xs ! i)"
proof (induction xs arbitrary: i)
  case Nil
  then show ?case by simp
next
  case (Cons a xs)
  show ?case
  proof (cases i)
    case 0
    with Cons.prems show ?thesis by simp
  next
    case (Suc k)
    have "\<not> mt (Name a)" using Cons.prems(3) [of 0] Suc by simp
    moreover have "scanAssets mt xs = Some (xs ! k)"
    proof (rule Cons.IH)
      show "k < length xs" using Cons.prems(1) Suc by simp
      show "mt (Name (xs ! k))" using Cons.prems(2) Suc by simp
      fix j assume "j < k"
      then show "\<not> mt (Name (xs ! j))" using Cons.prems(3) [of "Suc j"] Suc by simp
    qed
    ultimately show ?thesis using Suc by simp
  qed
qed

lemma fetchAsset_selects:
  assumes "github_Latest e (user gs) (project gs) = Inr r"
    and "\<not> Draft r" and "\<not> PreRelease r"
  shows "((\<forall>a \<in> set (Assets r). \<not> regexp_MatchString e (namePat gs) (Name a))
            \<longrightarrow> fetchAsset e gs s =
                  (Inl errGithubNoAssets, s\<lparr>api_calls := api_calls s @ [(user gs, project gs)]\<rparr>))
       \<and> (\<forall>i < length (Assets r).
            regexp_MatchString e (namePat gs) (Name (Assets r ! i))
            \<and> (\<forall>j < i. \<not> regexp_MatchString e (namePat gs) (Name (Assets r ! j)))
            \<longrightarrow> fetchAsset e gs s =
                  (if State (Assets r ! i) = ''uploaded'' then Inr (Assets r ! i)
                   else Inl errGithubIncompleteAsset,
                   s\<lparr>api_calls := api_calls s @ [(user gs, project gs)]\<rparr>))"
proof (intro conjI allI impI)
  assume "\<forall>a \<in> set (Assets r). \<not> regexp_MatchString e (namePat gs) (Name a)"
  then have "scanAssets (regexp_MatchString e (namePat gs)) (Assets r) = None"
    by (simp add: scanAssets_None)
  with assms show "fetchAsset e gs s =
      (Inl errGithubNoAssets, s\<lparr>api_calls := api_calls s @ [(user gs, project gs)]\<rparr>)"
    by (simp add: fetchAsset_def)
next
  fix i
  assume i: "i < length (Assets r)"
    and m: "regexp_MatchString e (namePat gs) (Name (Assets r ! i))
            \<and> (\<forall>j < i. \<not> regexp_MatchString e (namePat gs) (Name (Assets r ! j)))"
  have "scanAssets (regexp_MatchString e (namePat gs)) (Assets r) = Some (Assets r ! i)"
    using i m by (intro scanAssets_first) auto
  with assms show "fetchAsset e gs s =
                  (if State (Assets r ! i) = ''uploaded'' then Inr (Assets r ! i)
                   else Inl errGithubIncompleteAsset,
                   s\<lparr>api_calls := api_calls s @ [(user gs, project gs)]\<rparr>)"
    by (simp add: fetchAsset_def)
qed

text \<open>
  Claim C1. When \<^verbatim>\<open>github.Latest\<close> gives a release that is neither a draft nor a
  pre-release, the download of a GitHub source goes through the assets in the order of
  the list and takes the first one whose name matches \<open>namePat\<close>. If no name matches,
  the download returns the empty path with \<open>errGithubNoAssets\<close>. If the asset at index
  \<open>i\<close> matches and none before it does, that asset and no other decides: when its
  state is not \<^verbatim>\<open>uploaded\<close> the download returns the empty path with
  \<open>errGithubIncompleteAsset\<close>, whatever the later assets are; when it is, the download
  goes on with this asset, to the pivot check against its \<open>UpdatedAt\<close> and then to
  \<open>download\<close> of its \<open>DownloadURL\<close>. In the two failures no request is sent, no file
  is touched and the progress function is not called. \<open>fetchAsset\<close> itself returns the
  same errors, or the asset.
\<close>
theorem github_download_first_match:
  assumes "github_Latest e (user gs) (project gs) = Inr r"
    and "\<not> Draft r" and "\<not> PreRelease r"
  shows "((\<forall>a \<in> set (Assets r). \<not> regexp_MatchString e (namePat gs) (Name a))
            \<longrightarrow> fst (fetchAsset e gs s) = Inl errGithubNoAssets
                \<and> fst (githubSource_download e gs d p pf s) = ([], Some errGithubNoAssets)
                \<and> requests (snd (githubSource_download e gs d p pf s)) = requests s
                \<and> files (snd (githubSource_download e gs d p pf s)) = files s
                \<and> progress (snd (githubSource_download e gs d p pf s)) = progress s)
       \<and> (\<forall>i < length (Assets r).
            regexp_MatchString e (namePat gs) (Name (Assets r ! i))
            \<and> (\<forall>j < i. \<not> regexp_MatchString e (namePat gs) (Name (Assets r ! j)))
            \<longrightarrow> fst (fetchAsset e gs s) =
                  (if State (Assets r ! i) = ''uploaded'' then Inr (Assets r ! i)
                   else Inl errGithubIncompleteAsset)
                \<and> (State (Assets r ! i) \<noteq> ''uploaded''
                     \<longrightarrow> fst (githubSource_download e gs d p pf s)
                           = ([], Some errGithubIncompleteAsset)
                         \<and> requests (snd (githubSource_download e gs d p pf s)) = requests s
                         \<and> files (snd (githubSource_download e gs d p pf s)) = files s
                         \<and> progress (snd (githubSource_download e gs d p pf s)) = progress s)
                \<and> (State (Assets r ! i) = ''uploaded''
                     \<longrightarrow> githubSource_download e gs d p pf s =
                           (if p \<noteq> 0 \<and> UpdatedAt (Assets r ! i) < p
                            then (([], Some errSourceNotModified),
                                  s\<lparr>api_calls := api_calls s @ [(user gs, project gs)]\<rparr>)
                            else download e (DownloadURL (Assets r ! i)) d p pf
                                   (s\<lparr>api_calls := api_calls s @ [(user gs, project gs)]\<rparr>))))"
proof (intro conjI allI impI)
  assume n: "\<forall>a \<in> set (Assets r). \<not> regexp_MatchString e (namePat gs) (Name a)"
  have f: "fetchAsset e gs s =
             (Inl errGithubNoAssets, s\<lparr>api_calls := api_calls s @ [(user gs, project gs)]\<rparr>)"
    using fetchAsset_selects [OF assms, of s] n by blast
  show "fst (fetchAsset e gs s) = Inl errGithubNoAssets"
    by (simp add: f)
  show "fst (githubSource_download e gs d p pf s) = ([], Some errGithubNoAssets)"
    by (simp add: githubSource_download_def f)
  show "requests (snd (githubSource_download e gs d p pf s)) = requests s"
    by (simp add: githubSource_download_def f)
  show "files (snd (githubSource_download e gs d p pf s)) = files s"
    by (simp add: githubSource_download_def f)
  show "progress (snd (githubSource_download e gs d p pf s)) = progress s"
    by (simp add: githubSource_download_def f)
next
  fix i
  assume i: "i < length (Assets r)"
    and m: "regexp_MatchString e (namePat gs) (Name (Assets r ! i))
            \<and> (\<forall>j < i. \<not> regexp_MatchString e (namePat gs) (Name (Assets r ! j)))"
  have f: "fetchAsset e gs s =
                  (if State (Assets r ! i) = ''uploaded'' then Inr (Assets r ! i)
                   else Inl errGithubIncompleteAsset,
                   s\<lparr>api_calls := api_calls s @ [(user gs, project gs)]\<rparr>)"
    using fetchAsset_selects [OF assms, of s] i m by blast
  show "fst (fetchAsset e gs s) =
          (if State (Assets r ! i) = ''uploaded'' then Inr (Assets r ! i)
           else Inl errGithubIncompleteAsset)"
    by (simp add: f)
  {
    assume u: "State (Assets r ! i) \<noteq> ''uploaded''"
    show "fst (githubSource_download e gs d p pf s) = ([], Some errGithubIncompleteAsset)"
      using u by (simp add: githubSource_download_def f)
    show "requests (snd (githubSource_download e gs d p pf s)) = requests s"
      using u by (simp add: githubSource_download_def f)
    show "files (snd (githubSource_download e gs d p pf s)) = files s"
      using u by (simp add: githubSource_download_def f)
    show "progress (snd (githubSource_download e gs d p pf s)) = progress s"
      using u by (simp add: githubSource_download_def f)
  }
  {
    assume u: "State (Assets r ! i) = ''uploaded''"
    show "githubSource_download e gs d p pf s =
            (if p \<noteq> 0 \<and> UpdatedAt (Assets r ! i) < p
             then (([], Some errSourceNotModified),
                   s\<lparr>api_calls := api_calls s @ [(user gs, project gs)]\<rparr>)
             else download e (DownloadURL (Assets r ! i)) d p pf
                    (s\<lparr>api_calls := api_calls s @ [(user gs, project gs)]\<rparr>))"
      using u by (simp add: githubSource_download_def f IsZero_def After_def)
  }
qed

text \<open>
  With the pattern \<^verbatim>\<open>win64\<close> the download takes the second asset of \<open>ex_release\<close>,
  although the first is uploaded too, and requests its URL. With \<^verbatim>\<open>win128\<close> no asset
  matches. In \<open>ex_pending\<close> the first asset that matches is still being uploaded, and
  the uploaded one after it is not looked at.
\<close>
theorem github_download_first_match_witness:
  "github_Latest ex_env (user ex_gs) (project ex_gs) = Inr ex_release
   \<and> \<not> Draft ex_release \<and> \<not> PreRelease ex_release
   \<and> fst (fetchAsset ex_env ex_gs ex_sys) = Inr ex_asset64
   \<and> fst (githubSource_download ex_env ex_gs ''work'' 0 True ex_sys)
       = (''work/x-win64-b.zip'', None)
   \<and> requests (snd (githubSource_download ex_env ex_gs ''work'' 0 True ex_sys))
       = [\<lparr>req_URL = ''http://h/x-win64-b.zip'', If_Modified_Since = None\<rparr>]
   \<and> fst (githubSource_download ex_env (ex_gs\<lparr>namePat := ''win128''\<rparr>) ''work'' 0 True ex_sys)
       = ([], Some errGithubNoAssets)
   \<and> requests (snd (githubSource_download ex_env (ex_gs\<lparr>namePat := ''win128''\<rparr>)
                      ''work'' 0 True ex_sys)) = []
   \<and> fst (githubSource_download ex_env (ex_gs\<lparr>project := ''pending''\<rparr>) ''work'' 0 True ex_sys)
       = ([], Some errGithubIncompleteAsset)
   \<and> requests (snd (githubSource_download ex_env (ex_gs\<lparr>project := ''pending''\<rparr>)
                      ''work'' 0 True ex_sys)) = []"
proof -
  have h: "github_Latest ex_env (user ex_gs) (project ex_gs) = Inr ex_release"
    by (simp add: ex_env_def ex_gs_def)
  have h': "github_Latest ex_env (user (ex_gs\<lparr>namePat := ''win128''\<rparr>))
              (project (ex_gs\<lparr>namePat := ''win128''\<rparr>)) = Inr ex_release"
    by (simp add: ex_env_def ex_gs_def)
  have h'': "github_Latest ex_env (user (ex_gs\<lparr>project := ''pending''\<rparr>))
              (project (ex_gs\<lparr>project := ''pending''\<rparr>)) = Inr ex_pending"
    by (simp add: ex_env_def ex_gs_def)
  have d: "\<not> Draft ex_release" and p: "\<not> PreRelease ex_release"
    and d'': "\<not> Draft ex_pending" and p'': "\<not> PreRelease ex_pending"
    by (simp_all add: ex_release_def ex_pending_def)
  have a: "Assets ex_release ! 1 = ex_asset64" "length (Assets ex_release) = 2"
    "Assets ex_release ! 0 = ex_asset32"
    "Assets ex_pending ! 1 = ex_asset_new" "length (Assets ex_pending) = 3"
    "Assets ex_pending ! 0 = ex_asset32"
    by (simp_all add: ex_release_def ex_pending_def)
  have m: "regexp_MatchString ex_env (namePat ex_gs) (Name ex_asset64)"
    "\<not> regexp_MatchString ex_env (namePat ex_gs) (Name ex_asset32)"
    "State ex_asset64 = ''uploaded''"
    "regexp_MatchString ex_env (namePat (ex_gs\<lparr>project := ''pending''\<rparr>)) (Name ex_asset_new)"
    "\<not> regexp_MatchString ex_env (namePat (ex_gs\<lparr>project := ''pending''\<rparr>)) (Name ex_asset32)"
    "State ex_asset_new \<noteq> ''uploaded''"
    by (simp_all add: ex_env_def ex_gs_def ex_asset64_def ex_asset32_def ex_asset_new_def)
  have n: "\<forall>a \<in> set (Assets ex_release).
             \<not> regexp_MatchString ex_env (namePat (ex_gs\<lparr>namePat := ''win128''\<rparr>)) (Name a)"
    by (simp add: ex_env_def ex_gs_def ex_asset64_def ex_asset32_def ex_release_def)
  have dl: "fst (download ex_env (DownloadURL ex_asset64) ''work'' 0 True
              (ex_sys\<lparr>api_calls := api_calls ex_sys @ [(user ex_gs, project ex_gs)]\<rparr>))
            = (''work/x-win64-b.zip'', None)"
    "requests (snd (download ex_env (DownloadURL ex_asset64) ''work'' 0 True
                 (ex_sys\<lparr>api_calls := api_calls ex_sys @ [(user ex_gs, project ex_gs)]\<rparr>)))
            = [\<lparr>req_URL = ''http://h/x-win64-b.zip'', If_Modified_Since = None\<rparr>]"
    by (simp_all add: download_def downloadFilepath_def downloadAsFile_def saveBody_def
        progressWriter_Write_def file_Write_def Let_def IsZero_def StatusOK_def
        ex_env_def ex_resp_ok_def ex_sys_def ex_asset64_def url_path_def base_name_def
        join_path_def)
  have ok: "fst (fetchAsset ex_env ex_gs ex_sys) = Inr ex_asset64
            \<and> fst (githubSource_download ex_env ex_gs ''work'' 0 True ex_sys)
                = (''work/x-win64-b.zip'', None)
            \<and> requests (snd (githubSource_download ex_env ex_gs ''work'' 0 True ex_sys))
                = [\<lparr>req_URL = ''http://h/x-win64-b.zip'', If_Modified_Since = None\<rparr>]"
    using github_download_first_match [OF h d p, of ex_sys "''work''" 0 True,
        THEN conjunct2, rule_format, of 1] a m dl
    by simp
  have none: "fst (githubSource_download ex_env (ex_gs\<lparr>namePat := ''win128''\<rparr>) ''work'' 0 True ex_sys)
                = ([], Some errGithubNoAssets)
            \<and> requests (snd (githubSource_download ex_env (ex_gs\<lparr>namePat := ''win128''\<rparr>)
                      ''work'' 0 True ex_sys)) = []"
    using github_download_first_match [OF h' d p, of ex_sys "''work''" 0 True, THEN conjunct1] n
    by (simp add: ex_sys_def)
  have pend: "fst (githubSource_download ex_env (ex_gs\<lparr>project := ''pending''\<rparr>) ''work'' 0 True ex_sys)
                = ([], Some errGithubIncompleteAsset)
            \<and> requests (snd (githubSource_download ex_env (ex_gs\<lparr>project := ''pending''\<rparr>)
                      ''work'' 0 True ex_sys)) = []"
    using github_download_first_match [OF h'' d'' p'', of ex_sys "''work''" 0 True,
        THEN conjunct2, rule_format, of 1] a m
    by (simp add: ex_sys_def)
  show ?thesis using h d p ok none pend by simp
qed

subsection \<open>The pivot check of a GitHub source\<close>

text \<open>
  Claim C2. When \<open>fetchAsset\<close> has selected the asset \<open>a\<close> and the pivot \<open>p\<close> is not the
  zero time and is strictly after \<open>UpdatedAt a\<close>, the download of a GitHub source returns
  the empty path with \<open>errSourceNotModified\<close>; no request is sent with
  \<^verbatim>\<open>http.DefaultClient.Do\<close>, no file is touched and the progress function is not called.
  The only call to the outside is the query of the releases API that selected the asset.
\<close>
theorem github_pivot_not_modified:
  assumes "fst (fetchAsset e gs s) = Inr a"
    and "p \<noteq> 0" and "UpdatedAt a < p"
  shows "fst (githubSource_download e gs d p pf s) = ('''', Some errSourceNotModified)
       \<and> requests (snd (githubSource_download e gs d p pf s)) = requests s
       \<and> files (snd (githubSource_download e gs d p pf s)) = files s
       \<and> progress (snd (githubSource_download e gs d p pf s)) = progress s
       \<and> api_calls (snd (githubSource_download e gs d p pf s)) = api_calls s @ [(user gs, project gs)]"
proof -
  obtain s1 where f: "fetchAsset e gs s = (Inr a, s1)"
    using assms(1) by (cases "fetchAsset e gs s") auto
  have s1: "s1 = s\<lparr>api_calls := api_calls s @ [(user gs, project gs)]\<rparr>"
    using f by (auto simp: fetchAsset_def Let_def split: sum.splits if_splits option.splits)
  show ?thesis
    using assms(2,3) by (simp add: githubSource_download_def f s1 IsZero_def After_def)
qed

text \<open>The asset of \<open>ex_gs\<close> was updated at 200; the pivot is 300.\<close>
theorem github_pivot_not_modified_witness:
  "fst (fetchAsset ex_env ex_gs ex_sys) = Inr ex_asset64
   \<and> UpdatedAt ex_asset64 < 300
   \<and> fst (githubSource_download ex_env ex_gs ''work'' 300 True ex_sys)
       = ([], Some errSourceNotModified)
   \<and> requests (snd (githubSource_download ex_env ex_gs ''work'' 300 True ex_sys)) = []
   \<and> files (snd (githubSource_download ex_env ex_gs ''work'' 300 True ex_sys)) = Map.empty
   \<and> api_calls (snd (githubSource_download ex_env ex_gs ''work'' 300 True ex_sys))
       = [(''koron'', ''vim-kaoriya'')]"
proof -
  have h: "fst (fetchAsset ex_env ex_gs ex_sys) = Inr ex_asset64"
    by (simp add: fetchAsset_def ex_env_def ex_gs_def ex_release_def ex_asset32_def ex_asset64_def)
  have z: "(300 :: int) \<noteq> 0" by simp
  have u: "UpdatedAt ex_asset64 < 300" by (simp add: ex_asset64_def)
  show ?thesis
    using github_pivot_not_modified [OF h z u, of "''work''" True] h u
    by (simp add: ex_sys_def ex_gs_def)
qed

subsection \<open>The copy loop\<close>

lemma sint_of_nat_small:
  fixes k :: nat
  assumes "k < 2 ^ 63"
  shows "sint (of_nat k :: 64 word) = int k"
proof -
  have "sint (of_nat k :: 64 word) = sint (word_of_int (int k) :: 64 word)"
    by simp
  also have "\<dots> = signed_take_bit (LENGTH(64) - 1) (int k)"
    by (rule sint_sbintrunc')
  also have "\<dots> = int k"
  proof (rule signed_take_bit_int_eq_self)
    show "- (2 ^ (LENGTH(64) - 1)) \<le> int k" by simp
    have "int k < int (2 ^ 63)" using assms by (simp only: of_nat_less_iff)
    then show "int k < 2 ^ (LENGTH(64) - 1)" by simp
  qed
  finally show ?thesis .
qed

lemma file_Write_step:
  assumes "files s path = Some cur"
    and "file_Write e path c s = ((nw, ew), s1)"
  shows "\<exists>wr. s1 = s\<lparr>files := (files s)(path \<mapsto> cur @ wr)\<rparr> \<and> length wr = nw \<and> nw \<le> length c
            \<and> (ew = None \<longrightarrow> wr = c)"
  using assms
  by (auto simp: file_Write_def Let_def min_def split: option.splits prod.splits)

lemma pw_Write_step:
  assumes "files s (pw_w pw) = Some cur"
    and "pw_n pw = of_nat (length cur)"
    and "length cur + length c < 2 ^ 63"
    and "progressWriter_Write e pw c s = ((nw, ew), pw1, s1)"
  shows "\<exists>wr. files s1 = (files s)(pw_w pw \<mapsto> cur @ wr) \<and> length wr = nw \<and> nw \<le> length c
            \<and> (ew = None \<longrightarrow> wr = c)
            \<and> pw1 = pw\<lparr>pw_n := of_nat (length (cur @ wr))\<rparr>
            \<and> progress s1 = progress s @
                 (if pw_f pw then [(int (length (cur @ wr)), sint (pw_m pw))] else [])
            \<and> requests s1 = requests s \<and> api_calls s1 = api_calls s"
proof -
  obtain s0 where fw: "file_Write e (pw_w pw) c s = ((nw, ew), s0)"
    using assms(4) by (auto simp: progressWriter_Write_def Let_def split: prod.splits)
  from file_Write_step [OF assms(1) fw] obtain wr where
    wr: "s0 = s\<lparr>files := (files s)(pw_w pw \<mapsto> cur @ wr)\<rparr>" "length wr = nw" "nw \<le> length c"
        "ew = None \<longrightarrow> wr = c"
    by blast
  have n: "pw_n pw + of_nat nw = (of_nat (length (cur @ wr)) :: 64 word)"
    using assms(2) wr(2) by simp
  have "length (cur @ wr) < 2 ^ 63" using wr(2,3) assms(3) by simp
  then have si: "sint (of_nat (length (cur @ wr)) :: 64 word) = int (length (cur @ wr))"
    by (rule sint_of_nat_small)
  have pw1: "pw1 = pw\<lparr>pw_n := of_nat (length (cur @ wr))\<rparr>"
    using assms(4) fw n by (auto simp: progressWriter_Write_def Let_def)
  have s1: "s1 = (if pw_f pw
                  then s0\<lparr>progress := progress s0 @ [(int (length (cur @ wr)), sint (pw_m pw))]\<rparr>
                  else s0)"
    using assms(4) fw n si by (auto simp: progressWriter_Write_def Let_def)
  show ?thesis
    using wr pw1 s1 by (intro exI [of _ wr]) auto
qed

lemma io_Copy_progress:
  assumes "files s (pw_w pw) = Some cur"
    and "pw_n pw = of_nat (length cur)"
    and "length cur + sum_list (map length cs) < 2 ^ 63"
    and "io_Copy e pw cs rerr s = (err, pw', s')"
  shows "\<exists>calls cur'. progress s' = progress s @ calls \<and> files s' (pw_w pw) = Some cur'
            \<and> sorted (map fst calls)
            \<and> (\<forall>c \<in> set calls. snd c = sint (pw_m pw) \<and> int (length cur) \<le> fst c)
            \<and> (calls \<noteq> [] \<longrightarrow> fst (last calls) = int (length cur'))
            \<and> (pw_f pw \<and> calls = [] \<longrightarrow> cur' = cur)"
  using assms
proof (induction cs arbitrary: pw s cur)
  case Nil
  then show ?case by (intro exI [of _ "[]"] exI [of _ cur]) simp
next
  case (Cons c cs)
  show ?case
  proof (cases "c = []")
    case True
    with Cons.prems have "io_Copy e pw cs rerr s = (err, pw', s')"
      and "length cur + sum_list (map length cs) < 2 ^ 63"
      by simp_all
    with Cons.IH [OF Cons.prems(1,2)] show ?thesis by blast
  next
    case False
    obtain nw ew pw1 s1 where w: "progressWriter_Write e pw c s = ((nw, ew), pw1, s1)"
      by (metis prod.exhaust)
    have b: "length cur + length c < 2 ^ 63" using Cons.prems(3) by simp
    from pw_Write_step [OF Cons.prems(1,2) b w] obtain wr where
      wr: "files s1 = (files s)(pw_w pw \<mapsto> cur @ wr)" "length wr = nw" "nw \<le> length c"
          "ew = None \<longrightarrow> wr = c" "pw1 = pw\<lparr>pw_n := of_nat (length (cur @ wr))\<rparr>"
          "progress s1 = progress s @
             (if pw_f pw then [(int (length (cur @ wr)), sint (pw_m pw))] else [])"
      by blast
    define first where "first = (if pw_f pw then [(int (length (cur @ wr)), sint (pw_m pw))] else [])"
    show ?thesis
    proof (cases "ew = None \<and> length c = nw")
      case stop: False
      then have "s' = s1"
        using Cons.prems(4) False w by (auto split: option.splits if_splits)
      then show ?thesis
        using wr by (intro exI [of _ first] exI [of _ "cur @ wr"]) (simp add: first_def)
    next
      case go: True
      then have rec: "io_Copy e pw1 cs rerr s1 = (err, pw', s')"
        using Cons.prems(4) False w by simp
      have wc: "wr = c" using go wr(4) by simp
      have f1: "files s1 (pw_w pw1) = Some (cur @ wr)" using wr(1,5) by simp
      have n1: "pw_n pw1 = of_nat (length (cur @ wr))" using wr(5) by simp
      have b1: "length (cur @ wr) + sum_list (map length cs) < 2 ^ 63"
        using Cons.prems(3) wc by simp
      from Cons.IH [OF f1 n1 b1 rec] obtain calls cur' where
        ih: "progress s' = progress s1 @ calls" "files s' (pw_w pw1) = Some cur'"
            "sorted (map fst calls)"
            "\<forall>c \<in> set calls. snd c = sint (pw_m pw1) \<and> int (length (cur @ wr)) \<le> fst c"
            "calls \<noteq> [] \<longrightarrow> fst (last calls) = int (length cur')"
            "pw_f pw1 \<and> calls = [] \<longrightarrow> cur' = cur @ wr"
        by blast
      have p1: "pw_w pw1 = pw_w pw" "pw_m pw1 = pw_m pw" "pw_f pw1 = pw_f pw"
        using wr(5) by simp_all
      have srt: "sorted (map fst (first @ calls))"
        using ih(3,4) by (auto simp: first_def sorted_append)
      have bnd: "\<forall>c \<in> set (first @ calls). snd c = sint (pw_m pw) \<and> int (length cur) \<le> fst c"
        using ih(4) p1 by (auto simp: first_def)
      have lst: "first @ calls \<noteq> [] \<longrightarrow> fst (last (first @ calls)) = int (length cur')"
        using ih(5,6) p1 by (auto simp: first_def)
      have emp: "pw_f pw \<and> first @ calls = [] \<longrightarrow> cur' = cur"
        by (simp add: first_def)
      have prg: "progress s' = progress s @ (first @ calls)"
        using ih(1) wr(6) by (simp add: first_def)
      have fl: "files s' (pw_w pw) = Some cur'"
        using ih(2) p1 by simp
      show ?thesis
        using prg fl srt bnd lst emp by blast
    qed
  qed
qed

lemma io_Copy_no_fault:
  assumes "\<forall>cur c. os_Write_fault e (pw_w pw) cur c = None"
    and "files s (pw_w pw) = Some cur"
  shows "\<exists>pw' s'. io_Copy e pw cs rerr s = (rerr, pw', s')
            \<and> files s' = (files s)(pw_w pw \<mapsto> cur @ concat cs)"
  using assms
proof (induction cs arbitrary: pw s cur)
  case Nil
  then show ?case by (auto simp: fun_upd_idem)
next
  case (Cons c cs)
  show ?case
  proof (cases "c = []")
    case True
    with Cons.IH [OF Cons.prems] show ?thesis by simp
  next
    case False
    define pw1 where "pw1 = pw\<lparr>pw_n := pw_n pw + of_nat (length c)\<rparr>"
    define s0 where "s0 = s\<lparr>files := (files s)(pw_w pw \<mapsto> cur @ c)\<rparr>"
    define s1 where "s1 = (if pw_f pw
        then s0\<lparr>progress := progress s0 @ [(sint (pw_n pw1), sint (pw_m pw1))]\<rparr> else s0)"
    have w: "progressWriter_Write e pw c s = ((length c, None), pw1, s1)"
      using Cons.prems
      by (simp add: progressWriter_Write_def file_Write_def Let_def pw1_def s0_def s1_def)
    have a: "\<forall>cur c. os_Write_fault e (pw_w pw1) cur c = None"
      using Cons.prems(1) by (simp add: pw1_def)
    have f: "files s1 (pw_w pw1) = Some (cur @ c)"
      by (simp add: pw1_def s1_def s0_def)
    from Cons.IH [OF a f] obtain pw' s' where
      ih: "io_Copy e pw1 cs rerr s1 = (rerr, pw', s')"
          "files s' = (files s1)(pw_w pw1 \<mapsto> (cur @ c) @ concat cs)"
      by blast
    have "files s' = (files s)(pw_w pw \<mapsto> cur @ concat (c # cs))"
      using ih(2) by (simp add: pw1_def s1_def s0_def)
    moreover have "io_Copy e pw (c # cs) rerr s = (rerr, pw', s')"
      using False w ih(1) by simp
    ultimately show ?thesis by blast
  qed
qed

lemma saveBody_no_fault:
  assumes "os_Create e path = None"
    and "\<forall>cur c. os_Write_fault e path cur c = None"
  shows "fst (saveBody e path resp pf s) = BodyErr resp
       \<and> files (snd (saveBody e path resp pf s)) = (files s)(path \<mapsto> concat (Body resp))"
proof -
  define s1 where "s1 = s\<lparr>files := (files s)(path \<mapsto> [])\<rparr>"
  define wr where "wr = \<lparr>pw_w = path, pw_f = pf, pw_n = 0, pw_m = ContentLength resp\<rparr>"
  have a: "\<forall>cur c. os_Write_fault e (pw_w wr) cur c = None"
    using assms(2) by (simp add: wr_def)
  have f: "files s1 (pw_w wr) = Some []" by (simp add: s1_def wr_def)
  from io_Copy_no_fault [OF a f] obtain pw' s' where
    c: "io_Copy e wr (Body resp) (BodyErr resp) s1 = (BodyErr resp, pw', s')"
       "files s' = (files s1)(pw_w wr \<mapsto> [] @ concat (Body resp))"
    by blast
  have "saveBody e path resp pf s = (BodyErr resp, s')"
    using assms(1) c(1) by (simp add: saveBody_def s1_def wr_def split: option.splits)
  moreover have "files s' = (files s)(path \<mapsto> concat (Body resp))"
    using c(2) by (simp add: s1_def wr_def)
  ultimately show ?thesis by simp
qed

subsection \<open>The response statuses\<close>

text \<open>
  Claim C3. Let the conditional downloader have derived the destination \<open>path\<close>, built
  its request and received the response \<open>resp\<close>. With status 200, when the file can be
  created, no write fails and the body ends without a read error, \<open>download\<close> returns
  \<open>path\<close> with the nil error and the file at \<open>path\<close> holds the whole body. With
  status 304 it returns \<open>errSourceNotModified\<close> and writes nothing. With any other
  status it returns the error \<^verbatim>\<open>unexpected response:\<close> followed by the status text of
  the response, and writes nothing.
\<close>
theorem download_by_status:
  assumes "downloadFilepath e inURL outdir = (path, None)"
    and "http_NewRequest e inURL = None"
    and "http_Do e \<lparr>req_URL = inURL,
                     If_Modified_Since = (if pivot = 0 then None else Some pivot)\<rparr> = Inr resp"
  shows "(StatusCode resp = 200 \<and> os_Create e path = None
            \<and> (\<forall>cur c. os_Write_fault e path cur c = None) \<and> BodyErr resp = None
          \<longrightarrow> fst (download e inURL outdir pivot pf s) = (path, None)
              \<and> files (snd (download e inURL outdir pivot pf s))
                  = (files s)(path \<mapsto> concat (Body resp)))
       \<and> (StatusCode resp = 304
          \<longrightarrow> fst (download e inURL outdir pivot pf s) = ('''', Some errSourceNotModified)
              \<and> files (snd (download e inURL outdir pivot pf s)) = files s
              \<and> progress (snd (download e inURL outdir pivot pf s)) = progress s)
       \<and> (StatusCode resp \<noteq> 200 \<and> StatusCode resp \<noteq> 304
          \<longrightarrow> fst (download e inURL outdir pivot pf s)
                = ('''', Some (Errorf (''unexpected response: '' @ Status resp)))
              \<and> files (snd (download e inURL outdir pivot pf s)) = files s
              \<and> progress (snd (download e inURL outdir pivot pf s)) = progress s)"
proof -
  define req where "req = \<lparr>req_URL = inURL,
                     If_Modified_Since = (if pivot = 0 then None else Some pivot)\<rparr>"
  define s1 where "s1 = s\<lparr>requests := requests s @ [req]\<rparr>"
  have daf: "downloadAsFile e inURL path pivot pf s =
      (if StatusCode resp = 200 then saveBody e path resp pf s1
       else if StatusCode resp = 304 then (Some errSourceNotModified, s1)
       else (Some (Errorf (''unexpected response: '' @ Status resp)), s1))"
  proof (cases "pivot = 0")
    case True
    with assms(2,3) show ?thesis
      by (simp add: downloadAsFile_def Let_def IsZero_def StatusOK_def StatusNotModified_def
          req_def s1_def)
  next
    case False
    with assms(2,3) show ?thesis
      by (simp add: downloadAsFile_def Let_def IsZero_def StatusOK_def StatusNotModified_def
          req_def s1_def)
  qed
  have ok: "fst (download e inURL outdir pivot pf s) = (path, None)
          \<and> files (snd (download e inURL outdir pivot pf s)) = (files s)(path \<mapsto> concat (Body resp))"
    if h: "StatusCode resp = 200" "os_Create e path = None"
       "\<forall>cur c. os_Write_fault e path cur c = None" "BodyErr resp = None"
  proof -
    have "fst (saveBody e path resp pf s1) = None"
      and "files (snd (saveBody e path resp pf s1)) = (files s)(path \<mapsto> concat (Body resp))"
      using saveBody_no_fault [OF h(2,3), of resp pf s1] h(4) by (simp_all add: s1_def)
    then obtain s2 where "saveBody e path resp pf s1 = (None, s2)"
      "files s2 = (files s)(path \<mapsto> concat (Body resp))"
      by (cases "saveBody e path resp pf s1") auto
    then show ?thesis
      using assms(1) daf h(1) by (simp add: download_def)
  qed
  have nm: "fst (download e inURL outdir pivot pf s) = ('''', Some errSourceNotModified)
          \<and> files (snd (download e inURL outdir pivot pf s)) = files s
          \<and> progress (snd (download e inURL outdir pivot pf s)) = progress s"
    if "StatusCode resp = 304"
    using assms(1) daf that by (simp add: download_def s1_def)
  have un: "fst (download e inURL outdir pivot pf s)
                = ('''', Some (Errorf (''unexpected response: '' @ Status resp)))
          \<and> files (snd (download e inURL outdir pivot pf s)) = files s
          \<and> progress (snd (download e inURL outdir pivot pf s)) = progress s"
    if "StatusCode resp \<noteq> 200" "StatusCode resp \<noteq> 304"
    using assms(1) daf that by (simp add: download_def s1_def)
  show ?thesis using ok nm un by blast
qed

text \<open>
  One download for each of the three cases: an unconditional request (200), a
  conditional one (304), and a file the server does not have (404).
\<close>
theorem download_by_status_witness:
  "downloadFilepath ex_env ''http://h/x-win64-b.zip'' ''work'' = (''work/x-win64-b.zip'', None)
   \<and> fst (download ex_env ''http://h/x-win64-b.zip'' ''work'' 0 True ex_sys)
       = (''work/x-win64-b.zip'', None)
   \<and> files (snd (download ex_env ''http://h/x-win64-b.zip'' ''work'' 0 True ex_sys))
         ''work/x-win64-b.zip'' = Some [1, 2, 3, 4, 5]
   \<and> fst (download ex_env ''http://h/x-win64-b.zip'' ''work'' 150 True ex_sys)
       = ([], Some errSourceNotModified)
   \<and> files (snd (download ex_env ''http://h/x-win64-b.zip'' ''work'' 150 True ex_sys)) = Map.empty
   \<and> fst (download ex_env ''http://h/gone.zip'' ''work'' 0 True ex_sys)
       = ([], Some (Errorf ''unexpected response: 404 Not Found''))
   \<and> files (snd (download ex_env ''http://h/gone.zip'' ''work'' 0 True ex_sys)) = Map.empty"
proof -
  have p1: "downloadFilepath ex_env ''http://h/x-win64-b.zip'' ''work''
              = (''work/x-win64-b.zip'', None)"
    by (simp add: downloadFilepath_def ex_env_def url_path_def base_name_def join_path_def)
  have p2: "downloadFilepath ex_env ''http://h/gone.zip'' ''work'' = (''work/gone.zip'', None)"
    by (simp add: downloadFilepath_def ex_env_def url_path_def base_name_def join_path_def)
  have n1: "http_NewRequest ex_env ''http://h/x-win64-b.zip'' = None"
    and n2: "http_NewRequest ex_env ''http://h/gone.zip'' = None"
    by (simp_all add: ex_env_def)
  have d1: "http_Do ex_env \<lparr>req_URL = ''http://h/x-win64-b.zip'',
              If_Modified_Since = (if (0 :: int) = 0 then None else Some 0)\<rparr> = Inr ex_resp_ok"
    by (simp add: ex_env_def)
  have d2: "http_Do ex_env \<lparr>req_URL = ''http://h/x-win64-b.zip'',
              If_Modified_Since = (if (150 :: int) = 0 then None else Some 150)\<rparr>
              = Inr ex_resp_not_modified"
    by (simp add: ex_env_def)
  have d3: "http_Do ex_env \<lparr>req_URL = ''http://h/gone.zip'',
              If_Modified_Since = (if (0 :: int) = 0 then None else Some 0)\<rparr> = Inr ex_resp_gone"
    by (simp add: ex_env_def)
  have c: "os_Create ex_env ''work/x-win64-b.zip'' = None"
    "\<forall>cur c. os_Write_fault ex_env ''work/x-win64-b.zip'' cur c = None"
    by (simp_all add: ex_env_def)
  have r: "StatusCode ex_resp_ok = 200" "BodyErr ex_resp_ok = None"
    "concat (Body ex_resp_ok) = [1, 2, 3, 4, 5]"
    "StatusCode ex_resp_not_modified = 304"
    "StatusCode ex_resp_gone = 404" "Status ex_resp_gone = ''404 Not Found''"
    by (simp_all add: ex_resp_ok_def ex_resp_not_modified_def ex_resp_gone_def)
  show ?thesis
    using download_by_status [OF p1 n1 d1, of True ex_sys]
      download_by_status [OF p1 n1 d2, of True ex_sys]
      download_by_status [OF p2 n2 d3, of True ex_sys]
      p1 c r
    by (simp add: ex_sys_def)
qed

subsection \<open>The lookup in the table\<close>

text \<open>
  Claim C4. For each of the three source types and each of the two CPUs of the table,
  \<open>determineSource\<close> returns a source that is not nil, with the nil error; for every
  other source type and for every other CPU it returns nil with \<open>errSourceNotFound\<close>.
\<close>
theorem determineSource_table:
  "(st \<in> {releaseSource, developSource, canarySource} \<and> c \<in> {X86, AMD64}
      \<longrightarrow> (\<exists>src. determineSource st c = (Some src, None)))
   \<and> (st \<notin> {releaseSource, developSource, canarySource} \<or> c \<notin> {X86, AMD64}
      \<longrightarrow> determineSource st c = (None, Some errSourceNotFound))"
  by (cases c) (auto simp: determineSource_def sources_def releaseSource_def developSource_def canarySource_def)

text \<open>A pair of the table, a source type outside it, and a CPU outside it.\<close>
theorem determineSource_table_witness:
  "(\<exists>src. determineSource releaseSource AMD64 = (Some src, None))
   \<and> determineSource 7 X86 = (None, Some errSourceNotFound)
   \<and> determineSource canarySource (OtherCPU 3) = (None, Some errSourceNotFound)"
  using determineSource_table [of releaseSource AMD64] determineSource_table [of 7 X86]
    determineSource_table [of canarySource "OtherCPU 3"]
  by (simp add: releaseSource_def developSource_def canarySource_def)

subsection \<open>The calls of a run\<close>

lemma setup_main_Return:
  assumes "setup_main e g0 = Return (None, g)"
  shows "\<exists>conf. loadConfig e = Inr conf \<and> selfUpdate g = (\<not> DisableSelfUpdate conf)"
  using assms
  by (auto simp: setup_main_def split: sum.splits option.splits if_splits)

lemma run_reaches_primary:
  assumes "setup_main e initial_globals = Return (None, g)"
    and "vimSet e (sourceName g) = Some vimPack"
    and "netup_Update e w (targetDir g) (Join e (targetDir g) ''netupvim'') vimPack
           \<lparr>Arch_Name = cpu g, Arch_Hint = ''vim.exe''\<rparr> (restore g) = (r1, w1)"
  shows "run e w =
     (case r1 of
        Some err \<Rightarrow> (Return (Some err), w1,
           [UpdateCall (targetDir g) (Join e (targetDir g) ''netupvim'') vimPack
              \<lparr>Arch_Name = cpu g, Arch_Hint = ''vim.exe''\<rparr> (restore g)])
      | None \<Rightarrow>
          if shouldSelfUpdate e g w1 then
            (case netup_Update e w1 (targetDir g) (Join e (targetDir g) ''netupvim'') (netupPack e)
                    \<lparr>Arch_Name = ''X86'', Arch_Hint = []\<rparr> (restore g) of
               (r2, w2) \<Rightarrow>
                 (Return None, w2,
                  [UpdateCall (targetDir g) (Join e (targetDir g) ''netupvim'') vimPack
                     \<lparr>Arch_Name = cpu g, Arch_Hint = ''vim.exe''\<rparr> (restore g),
                   LogInfo ''trying to update netupvim'',
                   UpdateCall (targetDir g) (Join e (targetDir g) ''netupvim'') (netupPack e)
                     \<lparr>Arch_Name = ''X86'', Arch_Hint = []\<rparr> (restore g)]
                  @ (case r2 of None \<Rightarrow> []
                     | Some err \<Rightarrow> [LogInfo (''failed to udate netupvim: '' @ Error err)])))
          else (Return None, w1,
           [UpdateCall (targetDir g) (Join e (targetDir g) ''netupvim'') vimPack
              \<lparr>Arch_Name = cpu g, Arch_Hint = ''vim.exe''\<rparr> (restore g)]))"
  using assms
  by (simp add: run_def Let_def split: option.splits prod.splits)

lemma run_no_primary:
  assumes "\<nexists>g vimPack. setup_main e initial_globals = Return (None, g)
              \<and> vimSet e (sourceName g) = Some vimPack"
  shows "snd (snd (run e w)) = []"
  using assms
  by (auto simp: run_def Let_def split: outcome.splits option.splits prod.splits)

text \<open>
  Claim C5. A run calls \<^verbatim>\<open>netup.Update\<close> at most twice, and it makes the second call
  (the self-update) exactly when \<open>setup_main\<close> returned without error, the source name
  is in \<^verbatim>\<open>vimSet\<close>, the first call (the primary update) returned the nil error, the
  configuration does not disable self-update, and \<^verbatim>\<open>os.Stat\<close> finds
  \<^verbatim>\<open>netupvim.exe\<close> in the target directory. In every other run there is no second
  call.
\<close>
theorem self_update_only_when_eligible:
  "let ups = filter is_UpdateCall (snd (snd (run e w))) in
     length ups \<le> 2
     \<and> (length ups = 2 \<longleftrightarrow>
          (\<exists>g conf vimPack w1.
             setup_main e initial_globals = Return (None, g)
             \<and> loadConfig e = Inr conf
             \<and> vimSet e (sourceName g) = Some vimPack
             \<and> netup_Update e w (targetDir g) (Join e (targetDir g) ''netupvim'') vimPack
                  \<lparr>Arch_Name = cpu g, Arch_Hint = ''vim.exe''\<rparr> (restore g) = (None, w1)
             \<and> \<not> DisableSelfUpdate conf
             \<and> os_Stat e w1 (Join e (targetDir g) ''netupvim.exe'') = None))"
proof (cases "\<exists>g vimPack. setup_main e initial_globals = Return (None, g)
              \<and> vimSet e (sourceName g) = Some vimPack")
  case False
  then have "snd (snd (run e w)) = []" by (rule run_no_primary)
  moreover have "\<not> (\<exists>g conf vimPack w1.
             setup_main e initial_globals = Return (None, g)
             \<and> loadConfig e = Inr conf
             \<and> vimSet e (sourceName g) = Some vimPack
             \<and> netup_Update e w (targetDir g) (Join e (targetDir g) ''netupvim'') vimPack
                  \<lparr>Arch_Name = cpu g, Arch_Hint = ''vim.exe''\<rparr> (restore g) = (None, w1)
             \<and> \<not> DisableSelfUpdate conf
             \<and> os_Stat e w1 (Join e (targetDir g) ''netupvim.exe'') = None)"
    using False by blast
  ultimately show ?thesis by (simp add: Let_def)
next
  case True
  then obtain g vimPack where st: "setup_main e initial_globals = Return (None, g)"
    and vs: "vimSet e (sourceName g) = Some vimPack" by blast
  obtain conf where cf: "loadConfig e = Inr conf" "selfUpdate g = (\<not> DisableSelfUpdate conf)"
    using setup_main_Return [OF st] by blast
  obtain r1 w1 where up: "netup_Update e w (targetDir g) (Join e (targetDir g) ''netupvim'') vimPack
           \<lparr>Arch_Name = cpu g, Arch_Hint = ''vim.exe''\<rparr> (restore g) = (r1, w1)"
    by (metis prod.exhaust)
  note r = run_reaches_primary [OF st vs up]
  have rhs: "(\<exists>g conf vimPack w1.
             setup_main e initial_globals = Return (None, g)
             \<and> loadConfig e = Inr conf
             \<and> vimSet e (sourceName g) = Some vimPack
             \<and> netup_Update e w (targetDir g) (Join e (targetDir g) ''netupvim'') vimPack
                  \<lparr>Arch_Name = cpu g, Arch_Hint = ''vim.exe''\<rparr> (restore g) = (None, w1)
             \<and> \<not> DisableSelfUpdate conf
             \<and> os_Stat e w1 (Join e (targetDir g) ''netupvim.exe'') = None)
         \<longleftrightarrow> (r1 = None \<and> shouldSelfUpdate e g w1)"
    using st vs up cf by (auto simp: shouldSelfUpdate_def)
  show ?thesis
    unfolding Let_def rhs r
    by (auto split: option.splits prod.splits)
qed

text \<open>With the updater in the target directory there are two calls, without it not.\<close>
theorem self_update_only_when_eligible_witness:
  "length (filter is_UpdateCall (snd (snd (run ex_menv [(''netupvim.exe'', None)])))) = 2
   \<and> length (filter is_UpdateCall (snd (snd (run ex_menv [])))) \<noteq> 2"
proof -
  have s: "setup_main ex_menv initial_globals =
             Return (None, \<lparr>targetDir = ''.'', sourceName = ''release'', cpu = [],
                             restore = False, selfUpdate = True\<rparr>)"
    by (simp add: setup_main_def initial_globals_def ex_menv_def)
  have a: "\<exists>g conf vimPack w1.
             setup_main ex_menv initial_globals = Return (None, g)
             \<and> loadConfig ex_menv = Inr conf
             \<and> vimSet ex_menv (sourceName g) = Some vimPack
             \<and> netup_Update ex_menv [(''netupvim.exe'', None)] (targetDir g)
                  (Join ex_menv (targetDir g) ''netupvim'') vimPack
                  \<lparr>Arch_Name = cpu g, Arch_Hint = ''vim.exe''\<rparr> (restore g) = (None, w1)
             \<and> \<not> DisableSelfUpdate conf
             \<and> os_Stat ex_menv w1 (Join ex_menv (targetDir g) ''netupvim.exe'') = None"
    unfolding s by (simp add: ex_menv_def join_path_def)
  have b: "\<not> (\<exists>g conf vimPack w1.
             setup_main ex_menv initial_globals = Return (None, g)
             \<and> loadConfig ex_menv = Inr conf
             \<and> vimSet ex_menv (sourceName g) = Some vimPack
             \<and> netup_Update ex_menv [] (targetDir g)
                  (Join ex_menv (targetDir g) ''netupvim'') vimPack
                  \<lparr>Arch_Name = cpu g, Arch_Hint = ''vim.exe''\<rparr> (restore g) = (None, w1)
             \<and> \<not> DisableSelfUpdate conf
             \<and> os_Stat ex_menv w1 (Join ex_menv (targetDir g) ''netupvim.exe'') = None)"
    unfolding s by (auto simp: ex_menv_def join_path_def)
  show ?thesis
    using self_update_only_when_eligible [of ex_menv "[(''netupvim.exe'', None)]"]
      self_update_only_when_eligible [of ex_menv "[]"] a b
    by (simp add: Let_def)
qed

subsection \<open>Drafts and pre-releases\<close>

text \<open>
  Claim C6. When the latest release is a draft or a pre-release, the download of a
  GitHub source returns the empty path with \<open>errGithubNoRelease\<close>; no request is sent,
  no file is touched and the progress function is not called.
\<close>
theorem github_draft_no_transfer:
  assumes "github_Latest e (user gs) (project gs) = Inr r"
    and "Draft r \<or> PreRelease r"
  shows "fst (githubSource_download e gs d p pf s) = ('''', Some errGithubNoRelease)
       \<and> requests (snd (githubSource_download e gs d p pf s)) = requests s
       \<and> files (snd (githubSource_download e gs d p pf s)) = files s
       \<and> progress (snd (githubSource_download e gs d p pf s)) = progress s"
  using assms by (auto simp: githubSource_download_def fetchAsset_def)

text \<open>The latest release of the project \<^verbatim>\<open>koron/draft\<close> is a draft.\<close>
theorem github_draft_no_transfer_witness:
  "github_Latest ex_env ''koron'' ''draft'' = Inr ex_draft \<and> Draft ex_draft
   \<and> fst (githubSource_download ex_env (ex_gs\<lparr>project := ''draft''\<rparr>) ''work'' 0 True ex_sys)
       = ([], Some errGithubNoRelease)
   \<and> requests (snd (githubSource_download ex_env (ex_gs\<lparr>project := ''draft''\<rparr>) ''work'' 0 True ex_sys)) = []"
proof -
  have h: "github_Latest ex_env (user (ex_gs\<lparr>project := ''draft''\<rparr>))
             (project (ex_gs\<lparr>project := ''draft''\<rparr>)) = Inr ex_draft"
    by (simp add: ex_env_def ex_gs_def)
  have d: "Draft ex_draft \<or> PreRelease ex_draft" by (simp add: ex_draft_def)
  show ?thesis
    using github_draft_no_transfer [OF h d, of "''work''" 0 True ex_sys] h d
    by (simp add: ex_sys_def ex_gs_def ex_draft_def)
qed

subsection \<open>The progress function\<close>

text \<open>
  Claim C7. For a response whose body is shorter than \<open>2 ^ 63\<close> bytes (the counter is an
  \<^verbatim>\<open>int64\<close>), the calls of the progress function that \<open>saveBody\<close> adds have first
  arguments that never decrease and second arguments that all are the content length of
  the response (read as a signed number, so -1 when it is unknown); and when there is at
  least one call, the first argument of the last one is the length of the destination
  file, which is the number of bytes written to it.
\<close>
theorem progress_calls_monotone:
  assumes "sum_list (map length (Body resp)) < 2 ^ 63"
  shows "let s' = snd (saveBody e outPath resp pf s);
             calls = drop (length (progress s)) (progress s')
         in progress s' = progress s @ calls
            \<and> sorted (map fst calls)
            \<and> (\<forall>c \<in> set calls. snd c = sint (ContentLength resp))
            \<and> (calls \<noteq> [] \<longrightarrow>
                 map_option (\<lambda>b. int (length b)) (files s' outPath) = Some (fst (last calls)))"
proof (cases "os_Create e outPath")
  case (Some err)
  then show ?thesis by (simp add: saveBody_def)
next
  case None
  define s1 where "s1 = s\<lparr>files := (files s)(outPath \<mapsto> [])\<rparr>"
  define wr where "wr = \<lparr>pw_w = outPath, pw_f = pf, pw_n = 0, pw_m = ContentLength resp\<rparr>"
  obtain err pw' s' where c: "io_Copy e wr (Body resp) (BodyErr resp) s1 = (err, pw', s')"
    by (metis prod.exhaust)
  have sb: "snd (saveBody e outPath resp pf s) = s'"
    using None c by (simp add: saveBody_def s1_def wr_def split: option.splits)
  have f: "files s1 (pw_w wr) = Some []" by (simp add: s1_def wr_def)
  have n: "pw_n wr = of_nat (length ([] :: byte list))" by (simp add: wr_def)
  have b: "length ([] :: byte list) + sum_list (map length (Body resp)) < 2 ^ 63"
    using assms by simp
  from io_Copy_progress [OF f n b c] obtain calls cur' where
    r: "progress s' = progress s1 @ calls" "files s' (pw_w wr) = Some cur'"
       "sorted (map fst calls)"
       "\<forall>c \<in> set calls. snd c = sint (pw_m wr) \<and> int (length ([] :: byte list)) \<le> fst c"
       "calls \<noteq> [] \<longrightarrow> fst (last calls) = int (length cur')"
    by blast
  have p: "progress s' = progress s @ calls" using r(1) by (simp add: s1_def)
  then have d: "drop (length (progress s)) (progress s') = calls" by simp
  have m: "\<forall>c \<in> set calls. snd c = sint (ContentLength resp)"
    using r(4) by (simp add: wr_def)
  have l: "calls \<noteq> [] \<longrightarrow>
             map_option (\<lambda>b. int (length b)) (files s' outPath) = Some (fst (last calls))"
    using r(2,5) by (simp add: wr_def)
  show ?thesis
    unfolding Let_def sb d using p r(3) m l by simp
qed

text \<open>A body of two chunks, of three and two bytes, with content length 5.\<close>
theorem progress_calls_monotone_witness:
  "sum_list (map length (Body ex_resp_ok)) < 2 ^ 63
   \<and> progress (snd (saveBody ex_env ''work/x-win64-b.zip'' ex_resp_ok True ex_sys)) = [(3, 5), (5, 5)]
   \<and> sorted (map fst (progress (snd (saveBody ex_env ''work/x-win64-b.zip'' ex_resp_ok True ex_sys))))
   \<and> map_option (\<lambda>b. int (length b))
        (files (snd (saveBody ex_env ''work/x-win64-b.zip'' ex_resp_ok True ex_sys))
           ''work/x-win64-b.zip'') = Some 5
   \<and> sint (ContentLength ex_resp_ok) = 5"
proof -
  have h: "sum_list (map length (Body ex_resp_ok)) < 2 ^ 63"
    by (simp add: ex_resp_ok_def)
  have p: "progress (snd (saveBody ex_env ''work/x-win64-b.zip'' ex_resp_ok True ex_sys))
             = [(3, 5), (5, 5)]"
    by (simp add: saveBody_def progressWriter_Write_def file_Write_def Let_def
        ex_env_def ex_resp_ok_def ex_sys_def)
  have c: "sint (ContentLength ex_resp_ok) = 5" by (simp add: ex_resp_ok_def)
  show ?thesis
    using progress_calls_monotone [OF h, of ex_env "''work/x-win64-b.zip''" True ex_sys] h p c
    by (simp add: Let_def ex_sys_def)
qed

subsection \<open>A failed self-update\<close>

text \<open>
  Claim C8. When the primary update has returned the nil error, \<open>run\<close> returns the nil
  error whatever the self-update does; and when the self-update is attempted and fails
  with \<open>err\<close>, the run logs the attempt and then the failure with the message of
  \<open>err\<close>, after its two calls of \<^verbatim>\<open>netup.Update\<close>.
\<close>
theorem self_update_failure_not_returned:
  assumes "setup_main e initial_globals = Return (None, g)"
    and "vimSet e (sourceName g) = Some vimPack"
    and "netup_Update e w (targetDir g) (Join e (targetDir g) ''netupvim'') vimPack
           \<lparr>Arch_Name = cpu g, Arch_Hint = ''vim.exe''\<rparr> (restore g) = (None, w1)"
  shows "fst (run e w) = Return None
       \<and> (shouldSelfUpdate e g w1
            \<and> netup_Update e w1 (targetDir g) (Join e (targetDir g) ''netupvim'') (netupPack e)
                 \<lparr>Arch_Name = ''X86'', Arch_Hint = []\<rparr> (restore g) = (Some err, w2)
          \<longrightarrow> snd (snd (run e w)) =
                [UpdateCall (targetDir g) (Join e (targetDir g) ''netupvim'') vimPack
                   \<lparr>Arch_Name = cpu g, Arch_Hint = ''vim.exe''\<rparr> (restore g),
                 LogInfo ''trying to update netupvim'',
                 UpdateCall (targetDir g) (Join e (targetDir g) ''netupvim'') (netupPack e)
                   \<lparr>Arch_Name = ''X86'', Arch_Hint = []\<rparr> (restore g),
                 LogInfo (''failed to udate netupvim: '' @ Error err)])"
  unfolding run_reaches_primary [OF assms]
  by (auto split: prod.splits)

text \<open>In \<open>ex_menv\<close> the self-update fails with a timeout; the run logs it and returns nil.\<close>
theorem self_update_failure_not_returned_witness:
  "shouldSelfUpdate ex_menv
     \<lparr>targetDir = ''.'', sourceName = ''release'', cpu = [], restore = False, selfUpdate = True\<rparr>
     [(''netupvim.exe'', None)]
   \<and> fst (run ex_menv [(''netupvim.exe'', None)]) = Return None
   \<and> snd (snd (run ex_menv [(''netupvim.exe'', None)])) =
       [UpdateCall ''.'' ''netupvim'' ''vim-release'' \<lparr>Arch_Name = [], Arch_Hint = ''vim.exe''\<rparr> False,
        LogInfo ''trying to update netupvim'',
        UpdateCall ''.'' ''netupvim'' ''netupvim-release'' \<lparr>Arch_Name = ''X86'', Arch_Hint = []\<rparr> False,
        LogInfo ''failed to udate netupvim: download timeout'']"
proof -
  define g where "g = \<lparr>targetDir = ''.'', sourceName = ''release'', cpu = [], restore = False,
                        selfUpdate = True\<rparr>"
  have s: "setup_main ex_menv initial_globals = Return (None, g)"
    by (simp add: setup_main_def initial_globals_def ex_menv_def g_def)
  have v: "vimSet ex_menv (sourceName g) = Some ''vim-release''"
    by (simp add: ex_menv_def g_def)
  have u: "netup_Update ex_menv [(''netupvim.exe'', None)] (targetDir g)
             (Join ex_menv (targetDir g) ''netupvim'') ''vim-release''
             \<lparr>Arch_Name = cpu g, Arch_Hint = ''vim.exe''\<rparr> (restore g)
           = (None, [(''netupvim.exe'', None)])"
    by (simp add: ex_menv_def)
  have h: "shouldSelfUpdate ex_menv g [(''netupvim.exe'', None)]"
    by (simp add: shouldSelfUpdate_def ex_menv_def g_def join_path_def)
  have u2: "netup_Update ex_menv [(''netupvim.exe'', None)] (targetDir g)
             (Join ex_menv (targetDir g) ''netupvim'') (netupPack ex_menv)
             \<lparr>Arch_Name = ''X86'', Arch_Hint = []\<rparr> (restore g)
           = (Some (External ''download timeout''), [(''netupvim.exe'', None)])"
    by (simp add: ex_menv_def)
  have j: "Join ex_menv (targetDir g) ''netupvim'' = ''netupvim''" "netupPack ex_menv = ''netupvim-release''"
    "targetDir g = ''.''" "cpu g = []" "restore g = False"
    by (simp_all add: ex_menv_def g_def join_path_def)
  show ?thesis
    using self_update_failure_not_returned [OF s v u, of "External ''download timeout''"
        "[(''netupvim.exe'', None)]"] h u2 j
    by (simp add: g_def)
qed

subsection \<open>Paths and errors\<close>

lemma download_cases:
  assumes "download e u d p pf s = ((path, err), s')"
  shows "(err \<noteq> None \<longrightarrow> path = '''')
       \<and> (path \<noteq> '''' \<longrightarrow> err = None \<and> fst (downloadAsFile e u path p pf s) = None)"
  using assms
  by (auto simp: download_def split: prod.splits option.splits)

text \<open>
  Claim C9. For \<open>download\<close> and for the \<open>download\<close> method of a direct and of a GitHub
  source: when the returned error is not nil, the returned path is empty; and when the
  returned path is not empty, the error is nil and \<open>downloadAsFile\<close> has returned nil for
  that path (for a GitHub source: for the URL of the asset \<open>fetchAsset\<close> selected, in the
  state \<open>fetchAsset\<close> left).
\<close>
theorem download_error_empty_path:
  "(download e u d p pf s = ((path, err), s') \<longrightarrow>
      (err \<noteq> None \<longrightarrow> path = '''')
      \<and> (path \<noteq> '''' \<longrightarrow> err = None \<and> fst (downloadAsFile e u path p pf s) = None))
   \<and> (directSource_download e ds d p pf s = ((path, err), s') \<longrightarrow>
      (err \<noteq> None \<longrightarrow> path = '''')
      \<and> (path \<noteq> '''' \<longrightarrow> err = None \<and> fst (downloadAsFile e (url ds) path p pf s) = None))
   \<and> (githubSource_download e gs d p pf s = ((path, err), s') \<longrightarrow>
      (err \<noteq> None \<longrightarrow> path = '''')
      \<and> (path \<noteq> '''' \<longrightarrow> err = None
           \<and> (\<exists>a. fst (fetchAsset e gs s) = Inr a
                \<and> fst (downloadAsFile e (DownloadURL a) path p pf (snd (fetchAsset e gs s))) = None)))"
proof (intro conjI impI)
  assume "download e u d p pf s = ((path, err), s')"
  from download_cases [OF this] show "err \<noteq> None \<Longrightarrow> path = ''''"
    and "path \<noteq> '''' \<Longrightarrow> err = None"
    and "path \<noteq> '''' \<Longrightarrow> fst (downloadAsFile e u path p pf s) = None"
    by blast+
next
  assume "directSource_download e ds d p pf s = ((path, err), s')"
  then have "download e (url ds) d p pf s = ((path, err), s')"
    by (simp add: directSource_download_def)
  from download_cases [OF this] show "err \<noteq> None \<Longrightarrow> path = ''''"
    and "path \<noteq> '''' \<Longrightarrow> err = None"
    and "path \<noteq> '''' \<Longrightarrow> fst (downloadAsFile e (url ds) path p pf s) = None"
    by blast+
next
  assume g: "githubSource_download e gs d p pf s = ((path, err), s')"
  obtain r s1 where f: "fetchAsset e gs s = (r, s1)" by (metis prod.exhaust)
  show "err \<noteq> None \<Longrightarrow> path = ''''"
    using g f download_cases [of e _ d p pf s1 path err s']
    by (auto simp: githubSource_download_def split: sum.splits if_splits)
  show "path \<noteq> '''' \<Longrightarrow> err = None"
    using g f download_cases [of e _ d p pf s1 path err s']
    by (auto simp: githubSource_download_def split: sum.splits if_splits)
  show "path \<noteq> '''' \<Longrightarrow> \<exists>a. fst (fetchAsset e gs s) = Inr a
                \<and> fst (downloadAsFile e (DownloadURL a) path p pf (snd (fetchAsset e gs s))) = None"
    using g f download_cases [of e _ d p pf s1 path err s']
    by (auto simp: githubSource_download_def split: sum.splits if_splits)
qed

text \<open>A download that fails (404) and one that succeeds.\<close>
theorem download_error_empty_path_witness:
  "snd (fst (download ex_env ''http://h/gone.zip'' ''work'' 0 True ex_sys)) \<noteq> None
   \<and> fst (fst (download ex_env ''http://h/gone.zip'' ''work'' 0 True ex_sys)) = []
   \<and> fst (fst (download ex_env ''http://h/x-win64-b.zip'' ''work'' 0 True ex_sys)) \<noteq> []
   \<and> snd (fst (download ex_env ''http://h/x-win64-b.zip'' ''work'' 0 True ex_sys)) = None
   \<and> fst (downloadAsFile ex_env ''http://h/x-win64-b.zip''
             (fst (fst (download ex_env ''http://h/x-win64-b.zip'' ''work'' 0 True ex_sys)))
             0 True ex_sys) = None"
proof -
  have e1: "snd (fst (download ex_env ''http://h/gone.zip'' ''work'' 0 True ex_sys)) \<noteq> None"
    by (simp add: download_def downloadFilepath_def downloadAsFile_def Let_def IsZero_def
        StatusOK_def StatusNotModified_def ex_env_def ex_resp_gone_def)
  have e2: "fst (fst (download ex_env ''http://h/x-win64-b.zip'' ''work'' 0 True ex_sys)) \<noteq> []"
    by (simp add: download_def downloadFilepath_def downloadAsFile_def saveBody_def
        progressWriter_Write_def file_Write_def Let_def IsZero_def StatusOK_def
        ex_env_def ex_resp_ok_def ex_sys_def url_path_def base_name_def join_path_def)
  have s: "\<And>r :: (string \<times> error option) \<times> sys. r = ((fst (fst r), snd (fst r)), snd r)"
    by simp
  show ?thesis
    using download_error_empty_path [of ex_env "''http://h/gone.zip''" "''work''" 0 True ex_sys
        "fst (fst (download ex_env ''http://h/gone.zip'' ''work'' 0 True ex_sys))"
        "snd (fst (download ex_env ''http://h/gone.zip'' ''work'' 0 True ex_sys))"
        "snd (download ex_env ''http://h/gone.zip'' ''work'' 0 True ex_sys)",
        THEN conjunct1]
      download_error_empty_path [of ex_env "''http://h/x-win64-b.zip''" "''work''" 0 True ex_sys
        "fst (fst (download ex_env ''http://h/x-win64-b.zip'' ''work'' 0 True ex_sys))"
        "snd (fst (download ex_env ''http://h/x-win64-b.zip'' ''work'' 0 True ex_sys))"
        "snd (download ex_env ''http://h/x-win64-b.zip'' ''work'' 0 True ex_sys)",
        THEN conjunct1]
      e1 e2
    by simp
qed

subsection \<open>Errors of the probe\<close>

text \<open>
  Claim C10. Whenever \<^verbatim>\<open>os.Stat\<close> of \<^verbatim>\<open>netupvim.exe\<close> in the target directory
  returns an error, whatever the error is, \<open>shouldSelfUpdate\<close> is false; and a run whose
  primary update succeeded then returns the nil error after that one call of
  \<^verbatim>\<open>netup.Update\<close>, with nothing logged.
\<close>
theorem stat_error_disables_self_update:
  assumes "os_Stat e w1 (Join e (targetDir g) ''netupvim.exe'') = Some err"
  shows "\<not> shouldSelfUpdate e g w1
       \<and> (setup_main e initial_globals = Return (None, g)
            \<and> vimSet e (sourceName g) = Some vimPack
            \<and> netup_Update e w (targetDir g) (Join e (targetDir g) ''netupvim'') vimPack
                 \<lparr>Arch_Name = cpu g, Arch_Hint = ''vim.exe''\<rparr> (restore g) = (None, w1)
          \<longrightarrow> run e w = (Return None, w1,
                [UpdateCall (targetDir g) (Join e (targetDir g) ''netupvim'') vimPack
                   \<lparr>Arch_Name = cpu g, Arch_Hint = ''vim.exe''\<rparr> (restore g)]))"
proof -
  have n: "\<not> shouldSelfUpdate e g w1" using assms by (simp add: shouldSelfUpdate_def)
  show ?thesis
  proof (intro conjI impI)
    show "\<not> shouldSelfUpdate e g w1" by (rule n)
  next
    assume a: "setup_main e initial_globals = Return (None, g)
            \<and> vimSet e (sourceName g) = Some vimPack
            \<and> netup_Update e w (targetDir g) (Join e (targetDir g) ''netupvim'') vimPack
                 \<lparr>Arch_Name = cpu g, Arch_Hint = ''vim.exe''\<rparr> (restore g) = (None, w1)"
    then show "run e w = (Return None, w1,
                [UpdateCall (targetDir g) (Join e (targetDir g) ''netupvim'') vimPack
                   \<lparr>Arch_Name = cpu g, Arch_Hint = ''vim.exe''\<rparr> (restore g)])"
      using run_reaches_primary [of e g vimPack w None w1] n by simp
  qed
qed

text \<open>The file is there, and \<^verbatim>\<open>os.Stat\<close> is denied the permission to look at it.\<close>
theorem stat_error_disables_self_update_witness:
  "os_Stat ex_menv [(''netupvim.exe'', Some (External ''permission denied''))]
     (Join ex_menv ''.'' ''netupvim.exe'') = Some (External ''permission denied'')
   \<and> \<not> shouldSelfUpdate ex_menv
        \<lparr>targetDir = ''.'', sourceName = ''release'', cpu = [], restore = False, selfUpdate = True\<rparr>
        [(''netupvim.exe'', Some (External ''permission denied''))]
   \<and> run ex_menv [(''netupvim.exe'', Some (External ''permission denied''))] =
       (Return None, [(''netupvim.exe'', Some (External ''permission denied''))],
        [UpdateCall ''.'' ''netupvim'' ''vim-release'' \<lparr>Arch_Name = [], Arch_Hint = ''vim.exe''\<rparr> False])"
proof -
  define g where "g = \<lparr>targetDir = ''.'', sourceName = ''release'', cpu = [], restore = False,
                        selfUpdate = True\<rparr>"
  define w where "w = [(''netupvim.exe'', Some (External ''permission denied''))]"
  have o: "os_Stat ex_menv w (Join ex_menv (targetDir g) ''netupvim.exe'')
             = Some (External ''permission denied'')"
    by (simp add: ex_menv_def g_def w_def join_path_def)
  have s: "setup_main ex_menv initial_globals = Return (None, g)"
    by (simp add: setup_main_def initial_globals_def ex_menv_def g_def)
  have v: "vimSet ex_menv (sourceName g) = Some ''vim-release''"
    by (simp add: ex_menv_def g_def)
  have u: "netup_Update ex_menv w (targetDir g)
             (Join ex_menv (targetDir g) ''netupvim'') ''vim-release''
             \<lparr>Arch_Name = cpu g, Arch_Hint = ''vim.exe''\<rparr> (restore g) = (None, w)"
    by (simp add: ex_menv_def)
  have j: "Join ex_menv (targetDir g) ''netupvim'' = ''netupvim''"
    "targetDir g = ''.''" "cpu g = []" "restore g = False"
    by (simp_all add: ex_menv_def g_def join_path_def)
  show ?thesis
    using stat_error_disables_self_update [OF o, of "''vim-release''" w] o s v u j
    by (simp add: g_def w_def)
qed

end
